theory Spec2Isabelle
  imports Main
begin

text \<open>
  A shallow embedding of cake-bot: the status classifier, the label reconciler, the
  pagination walks, the label provisioner, the bulk synchronization and the webhook
  handler, each translated from its Go function. Calls to the tracker are recorded in
  the order they are issued; what the tracker answers is an input. Logging has no
  effect beyond the dereferences its arguments make, which are kept.
\<close>

section \<open>Data model\<close>

text \<open>
  The structs of the tracker client that the program reads. Every field the Go code
  reaches through a pointer is an \<open>option\<close>: \<open>None\<close> is the nil pointer, and
  dereferencing it is the \<open>Panic\<close> outcome below. Only the fields the program touches
  are kept.
\<close>

record Label =
  Label_Name :: "string option"
  Label_Color :: "string option"

record User =
  Login :: "string option"

record Repository =
  Owner :: "User option"
  Repo_Name :: "string option"

record PullRequestLinks =
  PR_URL :: "string option"

record Issue =
  Number :: "int option"
  Title :: "string option"
  Body :: "string option"
  HTMLURL :: "string option"
  Labels :: "Label list"
  PullRequestLinks :: "PullRequestLinks option"

record IssueComment =
  Comment_Body :: "string option"

record ReviewRequest =
  issue :: Issue
  repo :: Repository
  comments :: "IssueComment list"

text \<open>
  A Go call either panics (a nil dereference; nothing is returned) or returns.
  A returned Go \<open>error\<close> is a value: \<open>None\<close> is the nil error.
\<close>

datatype 'a outcome = Panic | Return 'a

datatype error = RequestError string

text \<open>The remote calls of the tracker client, recorded in the order they are issued.\<close>

datatype call =
    ListComments string string int int
  | ReplaceLabelsForIssue string string int "string list"
  | ListByOrg string int
  | ListLabels string string
  | DeleteLabel string string string
  | CreateLabel string string string string
  | EditLabel string string string string string
  | IssuesGet string string int
  | GhGet string

definition WIPLabel :: string where
  "WIPLabel = ''wip''"

definition CakedLabel :: string where
  "CakedLabel = ''caked''"

definition AwaitingCakeLabel :: string where
  "AwaitingCakeLabel = ''awaiting-cake''"

section \<open>String primitives of the Go library\<close>

text \<open>\<open>strings.HasPrefix\<close>, \<open>strings.HasSuffix\<close> and \<open>strings.Contains\<close>, on bytes.\<close>

definition HasPrefix :: "string \<Rightarrow> string \<Rightarrow> bool" where
  "HasPrefix s p = (take (length p) s = p)"

definition HasSuffix :: "string \<Rightarrow> string \<Rightarrow> bool" where
  "HasSuffix s p = (length p \<le> length s \<and> drop (length s - length p) s = p)"

fun Contains :: "string \<Rightarrow> string \<Rightarrow> bool" where
  "Contains [] sub = (sub = [])"
| "Contains (c # cs) sub = (HasPrefix (c # cs) sub \<or> Contains cs sub)"

text \<open>
  \<open>WIPRegex = regexp.MustCompile("(?i)wip")\<close>. Under \<open>(?i)\<close> a letter matches the
  runes of its simple case-folding orbit; for w, i and p the orbit is the letter and
  its ASCII capital (no other rune folds to them), so the match is decided on bytes.
  \<open>MatchString\<close> is unanchored: it looks for a match starting at any position.
\<close>

fun WIPRegex_at :: "string \<Rightarrow> bool" where
  "WIPRegex_at (a # b # c # _) =
     ((a = CHR ''w'' \<or> a = CHR ''W'') \<and> (b = CHR ''i'' \<or> b = CHR ''I'') \<and>
      (c = CHR ''p'' \<or> c = CHR ''P''))"
| "WIPRegex_at _ = False"

fun WIPRegex_MatchString :: "string \<Rightarrow> bool" where
  "WIPRegex_MatchString [] = False"
| "WIPRegex_MatchString (c # cs) = (WIPRegex_at (c # cs) \<or> WIPRegex_MatchString cs)"

section \<open>Status classifier\<close>

definition IsWIP :: "ReviewRequest \<Rightarrow> bool outcome" where
  "IsWIP p = (case Title (issue p) of
                None \<Rightarrow> Panic
              | Some t \<Rightarrow> Return (WIPRegex_MatchString t))"

text \<open>The loop of \<open>IsCaked\<close>: it returns at the first comment that holds the marker.\<close>

fun IsCaked_loop :: "IssueComment list \<Rightarrow> bool outcome" where
  "IsCaked_loop [] = Return False"
| "IsCaked_loop (c # cs) =
     (case Comment_Body c of
        None \<Rightarrow> Panic
      | Some b \<Rightarrow> if Contains b '':cake:'' then Return True else IsCaked_loop cs)"

definition IsCaked :: "ReviewRequest \<Rightarrow> bool outcome" where
  "IsCaked p = IsCaked_loop (comments p)"

definition CalculateAppropriateStatus :: "ReviewRequest \<Rightarrow> string outcome" where
  "CalculateAppropriateStatus p =
     (case IsWIP p of
        Panic \<Rightarrow> Panic
      | Return True \<Rightarrow> Return WIPLabel
      | Return False \<Rightarrow>
          (case IsCaked p of
             Panic \<Rightarrow> Panic
           | Return True \<Rightarrow> Return CakedLabel
           | Return False \<Rightarrow> Return AwaitingCakeLabel))"

text \<open>The classifier in the words of the specification, to compare the code with.\<close>

definition ascii_lower :: "char \<Rightarrow> char" where
  "ascii_lower c =
     (case map_of (zip ''ABCDEFGHIJKLMNOPQRSTUVWXYZ'' ''abcdefghijklmnopqrstuvwxyz'') c of
        Some l \<Rightarrow> l
      | None \<Rightarrow> c)"

definition title_matches_wip :: "string \<Rightarrow> bool" where
  "title_matches_wip t = (\<exists>pre mid suf. t = pre @ mid @ suf \<and> map ascii_lower mid = ''wip'')"

definition has_cake_marker :: "string \<Rightarrow> bool" where
  "has_cake_marker b = (\<exists>pre suf. b = pre @ '':cake:'' @ suf)"

section \<open>Tracker client\<close>

text \<open>
  The client is the program's only way to the tracker. Its answers are inputs of the
  model: one function per client method, from the arguments of the call to what the
  call returns (\<open>Inl\<close> is the method's error return). \<open>listComments\<close> and
  \<open>listByOrg\<close> return the page asked for and the response's \<open>NextPage\<close>.
\<close>

record OrgIssue =
  OrgIssue_Issue :: Issue
  OrgIssue_Repository :: Repository

record Response =
  Header :: "string \<rightharpoonup> string list"

record client =
  listComments :: "string \<Rightarrow> string \<Rightarrow> int \<Rightarrow> int \<Rightarrow> error + (IssueComment list \<times> int)"
  replaceLabelsForIssue :: "string \<Rightarrow> string \<Rightarrow> int \<Rightarrow> string list \<Rightarrow> error option"
  listByOrg :: "string \<Rightarrow> int \<Rightarrow> error + (Repository list \<times> int)"
  listLabels :: "string \<Rightarrow> string \<Rightarrow> error + Label list"
  deleteLabel :: "string \<Rightarrow> string \<Rightarrow> string \<Rightarrow> error option"
  createLabel :: "string \<Rightarrow> string \<Rightarrow> string \<Rightarrow> string \<Rightarrow> error option"
  editLabel :: "string \<Rightarrow> string \<Rightarrow> string \<Rightarrow> string \<Rightarrow> string \<Rightarrow> error option"
  issuesGet :: "string \<Rightarrow> string \<Rightarrow> int \<Rightarrow> error + Issue"
  ghGet :: "string \<Rightarrow> error + (OrgIssue list \<times> Response option)"

text \<open>\<open>*r.Owner.Login\<close> and \<open>*r.Name\<close>: the pointers on the way may be nil.\<close>

definition deref :: "'a option \<Rightarrow> 'a outcome" where
  "deref p = (case p of None \<Rightarrow> Panic | Some v \<Rightarrow> Return v)"

definition ownerLogin :: "Repository \<Rightarrow> string outcome" where
  "ownerLogin r = (case Owner r of None \<Rightarrow> Panic | Some u \<Rightarrow> deref (Login u))"

text \<open>
  The arguments \<open>*repo.Owner.Login, *repo.Name, *issue.Number\<close> that every
  issue-level client call of the program evaluates before the call is made.
\<close>

definition issueArgs :: "Repository \<Rightarrow> Issue \<Rightarrow> (string \<times> string \<times> int) outcome" where
  "issueArgs r i =
     (case ownerLogin r of
        Panic \<Rightarrow> Panic
      | Return login \<Rightarrow>
          (case deref (Repo_Name r) of
             Panic \<Rightarrow> Panic
           | Return name \<Rightarrow>
               (case deref (Number i) of
                  Panic \<Rightarrow> Panic
                | Return n \<Rightarrow> Return (login, name, n))))"

section \<open>Label reconciler\<close>

text \<open>The four variables the label loop of \<open>updateIssueReviewLabels\<close> updates.\<close>

record label_scan =
  oldLabels :: "string list"
  newLabels :: "string list"
  foundReviewLabel :: bool
  incorrectReviewLabel :: bool

fun scanLabels :: "Label list \<Rightarrow> label_scan \<Rightarrow> label_scan outcome" where
  "scanLabels [] s = Return s"
| "scanLabels (l # ls) s =
     (case Label_Name l of
        None \<Rightarrow> Panic
      | Some n \<Rightarrow>
          (let s1 = s\<lparr>oldLabels := oldLabels s @ [n]\<rparr> in
           if n = WIPLabel \<or> n = CakedLabel \<or> n = AwaitingCakeLabel then
             (case newLabels s1 of
                [] \<Rightarrow> Panic
              | t # _ \<Rightarrow>
                  scanLabels ls
                    (s1\<lparr>foundReviewLabel := True,
                        incorrectReviewLabel := (if n \<noteq> t then True else incorrectReviewLabel s1)\<rparr>))
           else scanLabels ls (s1\<lparr>newLabels := newLabels s1 @ [n]\<rparr>)))"

text \<open>The values of the four variables before the loop; \<open>status\<close> is the classified status.\<close>

definition initialScan :: "string \<Rightarrow> label_scan" where
  "initialScan status =
     \<lparr>oldLabels = [], newLabels = [status],
      foundReviewLabel = False, incorrectReviewLabel = False\<rparr>"

definition labelsNeedUpdating :: "label_scan \<Rightarrow> bool" where
  "labelsNeedUpdating s =
     (if \<not> foundReviewLabel s then True
      else if incorrectReviewLabel s then True
      else False)"

text \<open>
  \<open>updateIssueReviewLabels\<close> returns the client calls it issued and its outcome: a
  panic, or the returned error (\<open>None\<close> is nil).
\<close>

definition updateIssueReviewLabels :: "client \<Rightarrow> ReviewRequest \<Rightarrow> call list \<times> error option outcome" where
  "updateIssueReviewLabels cl review =
     (case CalculateAppropriateStatus review of
        Panic \<Rightarrow> ([], Panic)
      | Return status \<Rightarrow>
          (case scanLabels (Labels (issue review)) (initialScan status) of
             Panic \<Rightarrow> ([], Panic)
           | Return s \<Rightarrow>
               if labelsNeedUpdating s then
                 (case issueArgs (repo review) (issue review) of
                    Panic \<Rightarrow> ([], Panic)
                  | Return (login, name, n) \<Rightarrow>
                      ([ReplaceLabelsForIssue login name n (newLabels s)],
                       Return (replaceLabelsForIssue cl login name n (newLabels s))))
               else ([], Return None)))"

text \<open>The reconciler's contract in the words of the specification.\<close>

definition isStatusLabel :: "string \<Rightarrow> bool" where
  "isStatusLabel n = (n = ''wip'' \<or> n = ''caked'' \<or> n = ''awaiting-cake'')"

definition labelNames :: "Label list \<Rightarrow> string list" where
  "labelNames ls = concat (map (\<lambda>l. case Label_Name l of None \<Rightarrow> [] | Some n \<Rightarrow> [n]) ls)"

text \<open>
  A write is required when no status label is present, or when a present status label
  differs from the target \<open>t\<close>.
\<close>

definition needsWrite :: "string \<Rightarrow> string list \<Rightarrow> bool" where
  "needsWrite t names =
     ((\<forall>l \<in> set names. \<not> isStatusLabel l) \<or> (\<exists>l \<in> set names. isStatusLabel l \<and> l \<noteq> t))"

definition populated :: "ReviewRequest \<Rightarrow> bool" where
  "populated review =
     (Title (issue review) \<noteq> None \<and> Number (issue review) \<noteq> None \<and>
      Repo_Name (repo review) \<noteq> None \<and>
      (case Owner (repo review) of None \<Rightarrow> False | Some u \<Rightarrow> Login u \<noteq> None) \<and>
      list_all (\<lambda>c. Comment_Body c \<noteq> None) (comments review) \<and>
      list_all (\<lambda>l. Label_Name l \<noteq> None) (Labels (issue review)))"


section \<open>Comment loading\<close>

text \<open>
  The loop of \<open>loadComments\<close>: it asks for page \<open>page\<close>, appends what comes back and
  goes on with \<open>resp.NextPage\<close> until that is 0. Nothing bounds the number of pages, so
  the loop is partial: \<open>None\<close> is the run that never returns. A result is the calls issued
  and either the error of the failing request or all comments.
\<close>

partial_function (option) loadComments_loop ::
  "client \<Rightarrow> string \<Rightarrow> string \<Rightarrow> int \<Rightarrow> int \<Rightarrow> IssueComment list \<Rightarrow> call list \<Rightarrow>
   (call list \<times> (error + IssueComment list)) option" where
  "loadComments_loop cl login name n page allComments tr =
     (case listComments cl login name n page of
        Inl err \<Rightarrow> Some (tr @ [ListComments login name n page], Inl err)
      | Inr (cs, nextPage) \<Rightarrow>
          if nextPage = 0
          then Some (tr @ [ListComments login name n page], Inr (allComments @ cs))
          else loadComments_loop cl login name n nextPage (allComments @ cs)
                 (tr @ [ListComments login name n page]))"

text \<open>
  \<open>loadComments\<close> writes \<open>review.comments\<close> only after the loop has ended without an
  error; on an error the request is left as it was. The result carries the returned
  error and the request as the caller sees it afterwards.
\<close>

definition loadComments ::
  "client \<Rightarrow> ReviewRequest \<Rightarrow> (call list \<times> (error option \<times> ReviewRequest) outcome) option" where
  "loadComments cl review =
     (case issueArgs (repo review) (issue review) of
        Panic \<Rightarrow> Some ([], Panic)
      | Return (login, name, n) \<Rightarrow>
          (case loadComments_loop cl login name n 0 [] [] of
             None \<Rightarrow> None
           | Some (tr, Inl err) \<Rightarrow> Some (tr, Return (Some err, review))
           | Some (tr, Inr allComments) \<Rightarrow>
               Some (tr, Return (None, review\<lparr>comments := allComments\<rparr>))))"

text \<open>\<open>ReviewRequestFromIssue\<close> calls \<open>loadComments\<close> and drops the error it returns.\<close>

definition ReviewRequestFromIssue ::
  "client \<Rightarrow> Repository \<Rightarrow> Issue \<Rightarrow> (call list \<times> ReviewRequest outcome) option" where
  "ReviewRequestFromIssue cl r i =
     (case loadComments cl \<lparr>issue = i, repo = r, comments = []\<rparr> of
        None \<Rightarrow> None
      | Some (tr, Panic) \<Rightarrow> Some (tr, Panic)
      | Some (tr, Return (_, review)) \<Rightarrow> Some (tr, Return review))"

text \<open>
  The pages of a comment listing as the tracker serves them from page \<open>page\<close> on: each
  page comes with the number of the next one. With \<open>fin = None\<close> the last page comes
  with 0; with \<open>fin = Some err\<close> the request after the last page listed fails with
  \<open>err\<close>. \<open>commentPageNumbers\<close> are the page numbers a walk over them asks for.
\<close>

fun servesCommentPages ::
  "client \<Rightarrow> string \<Rightarrow> string \<Rightarrow> int \<Rightarrow> int \<Rightarrow> (IssueComment list \<times> int) list \<Rightarrow>
   error option \<Rightarrow> bool" where
  "servesCommentPages cl login name n page [] fin =
     (case fin of None \<Rightarrow> False | Some err \<Rightarrow> listComments cl login name n page = Inl err)"
| "servesCommentPages cl login name n page ((cs, nextPage) # ps) fin =
     (listComments cl login name n page = Inr (cs, nextPage) \<and>
      (if ps = [] \<and> fin = None then nextPage = 0
       else nextPage \<noteq> 0 \<and> servesCommentPages cl login name n nextPage ps fin))"

fun commentPageNumbers :: "int \<Rightarrow> (IssueComment list \<times> int) list \<Rightarrow> error option \<Rightarrow> int list" where
  "commentPageNumbers page [] fin = (case fin of None \<Rightarrow> [] | Some _ \<Rightarrow> [page])"
| "commentPageNumbers page ((cs, nextPage) # ps) fin = page # commentPageNumbers nextPage ps fin"

section \<open>Link-header pagination\<close>

text \<open>
  \<open>strings.Split\<close> with a one-byte separator (the program splits on "," and ";").
  The result is never empty: the empty string splits into one empty string.
\<close>

fun Split :: "string \<Rightarrow> char \<Rightarrow> string list" where
  "Split [] sep = [[]]"
| "Split (c # cs) sep =
     (if c = sep then [] # Split cs sep
      else (case Split cs sep of
              [] \<Rightarrow> [[c]]
            | x # xs \<Rightarrow> (c # x) # xs))"

text \<open>
  \<open>strings.TrimSpace\<close> removes the leading and trailing runes for which
  \<open>unicode.IsSpace\<close> holds. On the UTF-8 bytes of the string these are the six ASCII
  characters tab, line feed, vertical tab, form feed, carriage return and space, the
  two-byte runes U+0085 and U+00A0, and the three-byte runes U+1680, U+2000 to U+200A,
  U+2028, U+2029, U+202F, U+205F and U+3000.
\<close>

definition space1 :: "char \<Rightarrow> bool" where
  "space1 a = (of_char a \<in> {9, 10, 11, 12, 13, 32 :: nat})"

definition space2 :: "char \<Rightarrow> char \<Rightarrow> bool" where
  "space2 a b = (of_char a = (0xC2 :: nat) \<and> of_char b \<in> {0x85, 0xA0 :: nat})"

definition space3 :: "char \<Rightarrow> char \<Rightarrow> char \<Rightarrow> bool" where
  "space3 a b c =
     ((of_char a = (0xE1 :: nat) \<and> of_char b = (0x9A :: nat) \<and> of_char c = (0x80 :: nat)) \<or>
      (of_char a = (0xE2 :: nat) \<and> of_char b = (0x80 :: nat) \<and>
         ((0x80 :: nat) \<le> of_char c \<and> of_char c \<le> (0x8A :: nat) \<or>
          of_char c \<in> {0xA8, 0xA9, 0xAF :: nat})) \<or>
      (of_char a = (0xE2 :: nat) \<and> of_char b = (0x81 :: nat) \<and> of_char c = (0x9F :: nat)) \<or>
      (of_char a = (0xE3 :: nat) \<and> of_char b = (0x80 :: nat) \<and> of_char c = (0x80 :: nat)))"

fun trimLeft :: "string \<Rightarrow> string" where
  "trimLeft (a # b # c # rest) =
     (if space1 a then trimLeft (b # c # rest)
      else if space2 a b then trimLeft (c # rest)
      else if space3 a b c then trimLeft rest
      else a # b # c # rest)"
| "trimLeft [a, b] =
     (if space1 a then trimLeft [b]
      else if space2 a b then []
      else [a, b])"
| "trimLeft [a] = (if space1 a then [] else [a])"
| "trimLeft [] = []"

text \<open>The same from the end, on the reversed string: the last byte comes first.\<close>

fun trimRightRev :: "string \<Rightarrow> string" where
  "trimRightRev (c # b # a # rest) =
     (if space1 c then trimRightRev (b # a # rest)
      else if space2 b c then trimRightRev (a # rest)
      else if space3 a b c then trimRightRev rest
      else c # b # a # rest)"
| "trimRightRev [c, b] =
     (if space1 c then trimRightRev [b]
      else if space2 b c then []
      else [c, b])"
| "trimRightRev [c] = (if space1 c then [] else [c])"
| "trimRightRev [] = []"

definition TrimSpace :: "string \<Rightarrow> string" where
  "TrimSpace s = rev (trimRightRev (rev (trimLeft s)))"

definition relNext :: string where
  "relNext = ''rel='' @ [CHR 0x22] @ ''next'' @ [CHR 0x22]"

text \<open>
  The loop of \<open>ghNextPageURL\<close> over the comma-separated links of the first
  \<open>Link\<close> header: a link with fewer than two ";"-separated segments, or whose first
  segment is not bracketed, is skipped; the first link left with a segment containing
  \<open>rel="next"\<close> gives its URL, the first segment without its brackets.
\<close>

fun nextPageOfLinks :: "string list \<Rightarrow> string" where
  "nextPageOfLinks [] = []"
| "nextPageOfLinks (link # links) =
     (let segments = Split (TrimSpace link) (CHR '';'') in
      if length segments < 2 then nextPageOfLinks links
      else if \<not> HasPrefix (hd segments) ''<'' \<or> \<not> HasSuffix (hd segments) ''>''
           then nextPageOfLinks links
      else if list_ex (\<lambda>segment. Contains segment relNext) (tl segments)
           then butlast (tl (hd segments))
      else nextPageOfLinks links)"

definition ghNextPageURL :: "Response option \<Rightarrow> string" where
  "ghNextPageURL r =
     (case r of
        None \<Rightarrow> []
      | Some resp \<Rightarrow>
          (case Header resp ''Link'' of
             Some (l # _) \<Rightarrow> nextPageOfLinks (Split l (CHR '',''))
           | _ \<Rightarrow> []))"

section \<open>Walking the issues of an organization\<close>

text \<open>
  The inner loop of \<open>ReviewRequestsInOrg\<close> over one page. Both branches log
  \<open>*i.Issue.Number\<close> and \<open>*i.Issue.HTMLURL\<close>, so an issue without either panics. An issue
  without pull-request links is skipped; the others are built with
  \<open>ReviewRequestFromIssue\<close> and appended.
\<close>

fun collectPage ::
  "client \<Rightarrow> OrgIssue list \<Rightarrow> ReviewRequest list \<Rightarrow> call list \<Rightarrow>
   (call list \<times> ReviewRequest list outcome) option" where
  "collectPage cl [] allIssues tr = Some (tr, Return allIssues)"
| "collectPage cl (i # rest) allIssues tr =
     (case deref (Number (OrgIssue_Issue i)) of
        Panic \<Rightarrow> Some (tr, Panic)
      | Return _ \<Rightarrow>
          (case deref (HTMLURL (OrgIssue_Issue i)) of
             Panic \<Rightarrow> Some (tr, Panic)
           | Return _ \<Rightarrow>
               if PullRequestLinks (OrgIssue_Issue i) = None
               then collectPage cl rest allIssues tr
               else (case ReviewRequestFromIssue cl (OrgIssue_Repository i) (OrgIssue_Issue i) of
                       None \<Rightarrow> None
                     | Some (tr', Panic) \<Rightarrow> Some (tr @ tr', Panic)
                     | Some (tr', Return review) \<Rightarrow>
                         collectPage cl rest (allIssues @ [review]) (tr @ tr'))))"

text \<open>
  The outer loop: fetch \<open>url\<close>, take the page in, follow the "next" link of the
  response, stop when there is none. A request error ends the walk and is returned.
  \<open>ghGet\<close> is taken to decode each page into a fresh slice.
\<close>

partial_function (option) ReviewRequestsInOrg_loop ::
  "client \<Rightarrow> string \<Rightarrow> ReviewRequest list \<Rightarrow> call list \<Rightarrow>
   (call list \<times> (error + ReviewRequest list) outcome) option" where
  "ReviewRequestsInOrg_loop cl url allIssues tr =
     (case ghGet cl url of
        Inl err \<Rightarrow> Some (tr @ [GhGet url], Return (Inl err))
      | Inr (pageIssues, resp) \<Rightarrow>
          (case collectPage cl pageIssues allIssues (tr @ [GhGet url]) of
             None \<Rightarrow> None
           | Some (tr', Panic) \<Rightarrow> Some (tr', Panic)
           | Some (tr', Return allIssues') \<Rightarrow>
               if ghNextPageURL resp = []
               then Some (tr', Return (Inr allIssues'))
               else ReviewRequestsInOrg_loop cl (ghNextPageURL resp) allIssues' tr'))"

definition orgIssuesURL :: "string \<Rightarrow> string" where
  "orgIssuesURL org =
     ''https://api.github.com/orgs/'' @ org @
     ''/issues?filter=all&sort=updated&direction=descending''"

definition ReviewRequestsInOrg ::
  "client \<Rightarrow> string \<Rightarrow> (call list \<times> (error + ReviewRequest list) outcome) option" where
  "ReviewRequestsInOrg cl org = ReviewRequestsInOrg_loop cl (orgIssuesURL org) [] []"









section \<open>Webhook handler\<close>

text \<open>
  The handler sees the \<open>X-GitHub-Event\<close> header and the result of decoding the JSON
  body into the payload struct: \<open>Inl\<close> when the decoder fails. The payload's action is a
  string, its issue, repository and pull request are pointers.
\<close>

record PullRequest =
  PR_Number :: "int option"

record Payload =
  Action :: string
  Payload_Issue :: "Issue option"
  Payload_Repository :: "Repository option"
  Payload_PullRequest :: "PullRequest option"

record WebhookRequest =
  event :: string
  decoded :: "error + Payload"

text \<open>
  Lines 81 to 93: the logger is given \<open>*Repository.Name\<close> and
  \<open>*Repository.Owner.Login\<close> when the repository is there, and \<open>*Issue.Number\<close> and
  \<open>*Issue.HTMLURL\<close> when the issue is there.
\<close>

definition logContext :: "Payload \<Rightarrow> unit outcome" where
  "logContext payload =
     (case (case Payload_Repository payload of
              None \<Rightarrow> Return ()
            | Some r \<Rightarrow>
                (case deref (Repo_Name r) of
                   Panic \<Rightarrow> Panic
                 | Return _ \<Rightarrow> (case ownerLogin r of Panic \<Rightarrow> Panic | Return _ \<Rightarrow> Return ()))) of
        Panic \<Rightarrow> Panic
      | Return _ \<Rightarrow>
          (case Payload_Issue payload of
             None \<Rightarrow> Return ()
           | Some i \<Rightarrow>
               (case deref (Number i) of
                  Panic \<Rightarrow> Panic
                | Return _ \<Rightarrow> (case deref (HTMLURL i) of Panic \<Rightarrow> Panic | Return _ \<Rightarrow> Return ()))))"

text \<open>
  Lines 115 to 127, for the issue to inspect: build the request (\<open>*payload.Repository\<close> is
  dereferenced first), reconcile its labels, answer 501 on a reconciliation error and
  200 otherwise.
\<close>

definition inspect ::
  "client \<Rightarrow> Repository option \<Rightarrow> Issue \<Rightarrow> call list \<Rightarrow> (call list \<times> int outcome) option" where
  "inspect cl r i tr =
     (case r of
        None \<Rightarrow> Some (tr, Panic)
      | Some rp \<Rightarrow>
          (case ReviewRequestFromIssue cl rp i of
             None \<Rightarrow> None
           | Some (tr1, Panic) \<Rightarrow> Some (tr @ tr1, Panic)
           | Some (tr1, Return pr) \<Rightarrow>
               (case updateIssueReviewLabels cl pr of
                  (tr2, Panic) \<Rightarrow> Some (tr @ tr1 @ tr2, Panic)
                | (tr2, Return (Some err)) \<Rightarrow> Some (tr @ tr1 @ tr2, Return 501)
                | (tr2, Return None) \<Rightarrow> Some (tr @ tr1 @ tr2, Return 200))))"

text \<open>
  \<open>githubWebhook\<close>: the calls issued and the HTTP status written, or a panic (then no
  status is written), or \<open>None\<close> when the comment pagination never ends. The test of
  line 95 reads \<open>*payload.Issue.Number\<close>; the pointer is not nil there, line 90 has
  dereferenced it already when the issue is present.
\<close>

definition githubWebhook :: "client \<Rightarrow> WebhookRequest \<Rightarrow> (call list \<times> int outcome) option" where
  "githubWebhook cl req =
     (if event req \<noteq> ''pull_request'' \<and> event req \<noteq> ''issue_comment''
      then Some ([], Return 200)
      else
        (case decoded req of
           Inl err \<Rightarrow> Some ([], Return 501)
         | Inr payload \<Rightarrow>
             (case logContext payload of
                Panic \<Rightarrow> Some ([], Panic)
              | Return _ \<Rightarrow>
                  if (case Payload_Issue payload of
                        None \<Rightarrow> False
                      | Some i \<Rightarrow> Number i \<noteq> Some 0 \<and> PullRequestLinks i \<noteq> None)
                  then (case Payload_Issue payload of
                          None \<Rightarrow> Some ([], Panic)
                        | Some i \<Rightarrow> inspect cl (Payload_Repository payload) i [])
                  else if Payload_PullRequest payload \<noteq> None \<and> Action payload = ''opened''
                  then
                    (case Payload_Repository payload of
                       None \<Rightarrow> Some ([], Panic)
                     | Some r \<Rightarrow>
                         (case ownerLogin r of
                            Panic \<Rightarrow> Some ([], Panic)
                          | Return login \<Rightarrow>
                              (case deref (Repo_Name r) of
                                 Panic \<Rightarrow> Some ([], Panic)
                               | Return name \<Rightarrow>
                                   (case (case Payload_PullRequest payload of
                                            None \<Rightarrow> Panic
                                          | Some p \<Rightarrow> deref (PR_Number p)) of
                                      Panic \<Rightarrow> Some ([], Panic)
                                    | Return n \<Rightarrow>
                                        (case issuesGet cl login name n of
                                           Inl err \<Rightarrow> Some ([IssuesGet login name n], Return 501)
                                         | Inr i \<Rightarrow>
                                             inspect cl (Payload_Repository payload) i
                                               [IssuesGet login name n])))))
                  else Some ([], Return 200))))"


section \<open>Label provisioner\<close>

definition LabelColors :: "(string \<times> string) list" where
  "LabelColors = [(WIPLabel, ''207de5''), (CakedLabel, ''009800''), (AwaitingCakeLabel, ''eb6420'')]"

definition deprecatedLabels :: "string list" where
  "deprecatedLabels = [''Awaiting Cake'']"

text \<open>
  \<open>strings.ToLower\<close>, as far as the program's comparisons can tell: the program compares
  the lowered label name with the lowered constants above, which are ASCII. A rune lowers
  to an ASCII character exactly when it is that character, its ASCII capital, U+0130
  (bytes C4 B0, lowers to i) or U+212A (bytes E2 84 AA, lowers to k). Every other byte
  outside ASCII is kept as it is; Go may change it, but never into ASCII.
\<close>

fun ToLower :: "string \<Rightarrow> string" where
  "ToLower (a # b # c # rest) =
     (if a = CHR 0xE2 \<and> b = CHR 0x84 \<and> c = CHR 0xAA then CHR ''k'' # ToLower rest
      else if a = CHR 0xC4 \<and> b = CHR 0xB0 then CHR ''i'' # ToLower (c # rest)
      else ascii_lower a # ToLower (b # c # rest))"
| "ToLower [a, b] =
     (if a = CHR 0xC4 \<and> b = CHR 0xB0 then [CHR ''i''] else ascii_lower a # ToLower [b])"
| "ToLower [a] = [ascii_lower a]"
| "ToLower [] = []"

text \<open>
  The inner loop of the first phase, for one deprecated name: every current label whose
  lowered name equals the lowered deprecated name is deleted; the first failing deletion
  ends the run with its error.
\<close>

fun deleteMatching ::
  "client \<Rightarrow> string \<Rightarrow> string \<Rightarrow> string \<Rightarrow> Label list \<Rightarrow> call list \<Rightarrow>
   call list \<times> error option outcome" where
  "deleteMatching cl login name label [] tr = (tr, Return None)"
| "deleteMatching cl login name label (actualLabel # rest) tr =
     (case Label_Name actualLabel of
        None \<Rightarrow> (tr, Panic)
      | Some actual \<Rightarrow>
          if ToLower actual = ToLower label then
            (case deleteLabel cl login name actual of
               Some err \<Rightarrow> (tr @ [DeleteLabel login name actual], Return (Some err))
             | None \<Rightarrow> deleteMatching cl login name label rest (tr @ [DeleteLabel login name actual]))
          else deleteMatching cl login name label rest tr)"

fun deleteDeprecated ::
  "client \<Rightarrow> string \<Rightarrow> string \<Rightarrow> string list \<Rightarrow> Label list \<Rightarrow> call list \<Rightarrow>
   call list \<times> error option outcome" where
  "deleteDeprecated cl login name [] currentLabels tr = (tr, Return None)"
| "deleteDeprecated cl login name (label # labels) currentLabels tr =
     (case deleteMatching cl login name label currentLabels tr of
        (tr', Return None) \<Rightarrow> deleteDeprecated cl login name labels currentLabels tr'
      | other \<Rightarrow> other)"

text \<open>
  The search of the second phase for one canonical label: \<open>(found, needsUpdating)\<close> at
  the first current label that has the name, or has it up to case.
\<close>

fun findLabel :: "string \<Rightarrow> string \<Rightarrow> Label list \<Rightarrow> (bool \<times> bool) outcome" where
  "findLabel label color [] = Return (False, False)"
| "findLabel label color (actualLabel # rest) =
     (case Label_Name actualLabel of
        None \<Rightarrow> Panic
      | Some actual \<Rightarrow>
          if actual = label then
            (case Label_Color actualLabel of
               None \<Rightarrow> Panic
             | Some actualColor \<Rightarrow> Return (True, actualColor \<noteq> color))
          else if ToLower actual = ToLower label then Return (True, True)
          else findLabel label color rest)"

text \<open>
  The second phase. Go iterates over the map \<open>LabelColors\<close> in an order of its own
  choosing; that order is the argument \<open>order\<close>.
\<close>

fun ensureLabels ::
  "client \<Rightarrow> string \<Rightarrow> string \<Rightarrow> Label list \<Rightarrow> (string \<times> string) list \<Rightarrow> call list \<Rightarrow>
   call list \<times> error option outcome" where
  "ensureLabels cl login name currentLabels [] tr = (tr, Return None)"
| "ensureLabels cl login name currentLabels ((label, color) # rest) tr =
     (case findLabel label color currentLabels of
        Panic \<Rightarrow> (tr, Panic)
      | Return (found, needsUpdating) \<Rightarrow>
          if \<not> found then
            (case createLabel cl login name label color of
               Some err \<Rightarrow> (tr @ [CreateLabel login name label color], Return (Some err))
             | None \<Rightarrow>
                 ensureLabels cl login name currentLabels rest
                   (tr @ [CreateLabel login name label color]))
          else if needsUpdating then
            (case editLabel cl login name label label color of
               Some err \<Rightarrow> (tr @ [EditLabel login name label label color], Return (Some err))
             | None \<Rightarrow>
                 ensureLabels cl login name currentLabels rest
                   (tr @ [EditLabel login name label label color]))
          else ensureLabels cl login name currentLabels rest tr)"

definition setupReviewFlagsInRepo ::
  "client \<Rightarrow> (string \<times> string) list \<Rightarrow> Repository \<Rightarrow> call list \<times> error option outcome" where
  "setupReviewFlagsInRepo cl order r =
     (case ownerLogin r of
        Panic \<Rightarrow> ([], Panic)
      | Return login \<Rightarrow>
          (case deref (Repo_Name r) of
             Panic \<Rightarrow> ([], Panic)
           | Return name \<Rightarrow>
               (case listLabels cl login name of
                  Inl err \<Rightarrow> ([ListLabels login name], Return (Some err))
                | Inr currentLabels \<Rightarrow>
                    (case deleteDeprecated cl login name deprecatedLabels currentLabels
                            [ListLabels login name] of
                       (tr, Return None) \<Rightarrow> ensureLabels cl login name currentLabels order tr
                     | other \<Rightarrow> other))))"







section \<open>Bulk synchronization\<close>

text \<open>
  One goroutine of \<open>ensureOrgReposHaveLabels\<close> per repository: it logs \<open>*r.Name\<close> and
  provisions the repository; an error is logged and dropped.
\<close>

definition repoTask ::
  "client \<Rightarrow> (Repository \<Rightarrow> (string \<times> string) list) \<Rightarrow> Repository \<Rightarrow> call list \<times> unit outcome" where
  "repoTask cl orderOf r =
     (case deref (Repo_Name r) of
        Panic \<Rightarrow> ([], Panic)
      | Return _ \<Rightarrow>
          (case setupReviewFlagsInRepo cl (orderOf r) r of
             (tr, Panic) \<Rightarrow> (tr, Panic)
           | (tr, Return _) \<Rightarrow> (tr, Return ())))"

text \<open>
  The loop of \<open>ensureOrgReposHaveLabels\<close> over the pages of repositories: its own calls,
  the tasks it started, and the error it returns.
\<close>

partial_function (option) ensureOrgRepos_loop ::
  "client \<Rightarrow> (Repository \<Rightarrow> (string \<times> string) list) \<Rightarrow> string \<Rightarrow> int \<Rightarrow> call list \<Rightarrow>
   (call list \<times> unit outcome) list \<Rightarrow>
   (call list \<times> (call list \<times> unit outcome) list \<times> error option) option" where
  "ensureOrgRepos_loop cl orderOf org page tr tasks =
     (case listByOrg cl org page of
        Inl err \<Rightarrow> Some (tr @ [ListByOrg org page], tasks, Some err)
      | Inr (repos, nextPage) \<Rightarrow>
          if nextPage = 0
          then Some (tr @ [ListByOrg org page], tasks @ map (repoTask cl orderOf) repos, None)
          else ensureOrgRepos_loop cl orderOf org nextPage (tr @ [ListByOrg org page])
                 (tasks @ map (repoTask cl orderOf) repos))"

definition ensureOrgReposHaveLabels ::
  "client \<Rightarrow> (Repository \<Rightarrow> (string \<times> string) list) \<Rightarrow> string \<Rightarrow>
   (call list \<times> (call list \<times> unit outcome) list \<times> error option) option" where
  "ensureOrgReposHaveLabels cl orderOf org = ensureOrgRepos_loop cl orderOf org 0 [] []"

record Config =
  Port :: int
  GithubOrg :: string

text \<open>
  The first goroutine of \<open>runBulkSync\<close>. Its body is \<open>defer wg.Done(); return\<close> followed
  by the call of \<open>ensureOrgReposHaveLabels\<close>: the \<open>return\<close> statement comes first, so the
  call after it is never reached.
\<close>

definition labelsGoroutine ::
  "client \<Rightarrow> (Repository \<Rightarrow> (string \<times> string) list) \<Rightarrow> Config \<Rightarrow>
   (call list \<times> (call list \<times> unit outcome) list \<times> error option) option" where
  "labelsGoroutine cl orderOf c =
     (let returned = True in
      if returned then Some ([], [], None)
      else ensureOrgReposHaveLabels cl orderOf (GithubOrg c))"

text \<open>
  The second goroutine, after the walk: for each request \<open>pr.Number()\<close> and \<open>pr.URL()\<close>
  are evaluated for the logger, then a goroutine reconciles the request and drops the
  result. The tasks are independent; each is recorded with its own calls.
\<close>

fun reconcileTasks ::
  "client \<Rightarrow> ReviewRequest list \<Rightarrow> (call list \<times> error option outcome) list \<Rightarrow>
   (call list \<times> error option outcome) list outcome" where
  "reconcileTasks cl [] tasks = Return tasks"
| "reconcileTasks cl (pr # rest) tasks =
     (case deref (Number (issue pr)) of
        Panic \<Rightarrow> Panic
      | Return _ \<Rightarrow>
          (case deref (HTMLURL (issue pr)) of
             Panic \<Rightarrow> Panic
           | Return _ \<Rightarrow> reconcileTasks cl rest (tasks @ [updateIssueReviewLabels cl pr])))"

record bulk_sync =
  provisioning :: "call list \<times> (call list \<times> unit outcome) list"
  issue_walk :: "call list"
  reconciliations :: "(call list \<times> error option outcome) list"
  crashed :: bool

definition runBulkSync ::
  "client \<Rightarrow> (Repository \<Rightarrow> (string \<times> string) list) \<Rightarrow> Config \<Rightarrow> bulk_sync option" where
  "runBulkSync cl orderOf c =
     (case labelsGoroutine cl orderOf c of
        None \<Rightarrow> None
      | Some (ptr, ptasks, _) \<Rightarrow>
          (case ReviewRequestsInOrg cl (GithubOrg c) of
             None \<Rightarrow> None
           | Some (tr, Panic) \<Rightarrow>
               Some \<lparr>provisioning = (ptr, ptasks), issue_walk = tr, reconciliations = [], crashed = True\<rparr>
           | Some (tr, Return (Inl err)) \<Rightarrow>
               Some \<lparr>provisioning = (ptr, ptasks), issue_walk = tr, reconciliations = [], crashed = False\<rparr>
           | Some (tr, Return (Inr issues)) \<Rightarrow>
               (case reconcileTasks cl issues [] of
                  Panic \<Rightarrow>
                    Some \<lparr>provisioning = (ptr, ptasks), issue_walk = tr, reconciliations = [],
                          crashed = True\<rparr>
                | Return tasks \<Rightarrow>
                    Some \<lparr>provisioning = (ptr, ptasks), issue_walk = tr, reconciliations = tasks,
                          crashed = False\<rparr>)))"

section \<open>Fixtures\<close>

text \<open>Concrete values the closed theorems below are evaluated at.\<close>

definition repoCakeBot :: Repository where
  "repoCakeBot = \<lparr>Owner = Some \<lparr>Login = Some ''geckoboard''\<rparr>, Repo_Name = Some ''cake-bot''\<rparr>"

definition prIssue :: "int \<Rightarrow> string \<Rightarrow> string \<Rightarrow> string list \<Rightarrow> Issue" where
  "prIssue n title body labels =
     \<lparr>Number = Some n, Title = Some title, Body = Some body, HTMLURL = Some ''https://x/pull'',
      Labels = map (\<lambda>l. \<lparr>Label_Name = Some l, Label_Color = None\<rparr>) labels,
      PullRequestLinks = Some \<lparr>PR_URL = None\<rparr>\<rparr>"

definition commentsOf :: "string list \<Rightarrow> IssueComment list" where
  "commentsOf bs = map (\<lambda>b. \<lparr>Comment_Body = Some b\<rparr>) bs"

definition review42 :: ReviewRequest where
  "review42 = \<lparr>issue = prIssue 42 ''Add feature'' ''no marker here'' [], repo = repoCakeBot,
               comments = commentsOf [''looks good'', ''ship it :cake:'']\<rparr>"

definition review7 :: ReviewRequest where
  "review7 = \<lparr>issue = prIssue 7 ''WIP: refactor'' '':cake:'' [''wip'', ''team:x''], repo = repoCakeBot,
              comments = commentsOf [''ship it :cake:'']\<rparr>"

definition reviewSwap :: ReviewRequest where
  "reviewSwap = \<lparr>issue = prIssue 42 ''Add feature'' [] [''wip'', ''team:x''], repo = repoCakeBot,
                 comments = commentsOf [''looks good'', ''ship it :cake:'']\<rparr>"

definition reviewSettled :: ReviewRequest where
  "reviewSettled = \<lparr>issue = prIssue 42 ''Add feature'' [] [''team:x'', ''caked''], repo = repoCakeBot,
                    comments = commentsOf [''looks good'', ''ship it :cake:'']\<rparr>"

text \<open>A client whose every call succeeds and finds nothing.\<close>

definition quietClient :: client where
  "quietClient =
     \<lparr>listComments = (\<lambda>_ _ _ _. Inr ([], 0)),
      replaceLabelsForIssue = (\<lambda>_ _ _ _. None),
      listByOrg = (\<lambda>_ _. Inr ([], 0)),
      listLabels = (\<lambda>_ _. Inr []),
      deleteLabel = (\<lambda>_ _ _. None),
      createLabel = (\<lambda>_ _ _ _. None),
      editLabel = (\<lambda>_ _ _ _ _. None),
      issuesGet = (\<lambda>_ _ _. Inl (RequestError ''not found'')),
      ghGet = (\<lambda>_. Inr ([], None))\<rparr>"







text \<open>Webhook deliveries.\<close>

definition issue42 :: Issue where
  "issue42 = prIssue 42 ''Add feature'' [] [''caked'']"

definition delivery :: "string \<Rightarrow> Payload \<Rightarrow> WebhookRequest" where
  "delivery ev payload = \<lparr>event = ev, decoded = Inr payload\<rparr>"

definition commentPayload :: "Issue option \<Rightarrow> Repository option \<Rightarrow> Payload" where
  "commentPayload i r =
     \<lparr>Action = ''created'', Payload_Issue = i, Payload_Repository = r, Payload_PullRequest = None\<rparr>"

definition openedPayload :: Payload where
  "openedPayload =
     \<lparr>Action = ''opened'', Payload_Issue = None, Payload_Repository = Some repoCakeBot,
      Payload_PullRequest = Some \<lparr>PR_Number = Some 42\<rparr>\<rparr>"

text \<open>
  A tracker whose comment listing for issue 42 has two pages, the second of which cannot
  be fetched; the first holds the cake marker.
\<close>

definition flakyClient :: client where
  "flakyClient =
     quietClient\<lparr>listComments := (\<lambda>_ _ _ page.
       if page = 0 then Inr (commentsOf [''ship it :cake:''], 2)
       else Inl (RequestError ''timeout''))\<rparr>"




text \<open>
  A repository whose labels are out of date, a tracker that lists given labels, and an
  organization with one repository that has no labels and no issues.
\<close>

definition mkLabel :: "string \<Rightarrow> string \<Rightarrow> Label" where
  "mkLabel n c = \<lparr>Label_Name = Some n, Label_Color = Some c\<rparr>"


definition labelsClient :: "Label list \<Rightarrow> client" where
  "labelsClient ls = quietClient\<lparr>listLabels := (\<lambda>_ _. Inr ls)\<rparr>"

definition orgClient :: client where
  "orgClient = quietClient\<lparr>listByOrg := (\<lambda>_ _. Inr ([repoCakeBot], 0))\<rparr>"

definition geckoboard :: Config where
  "geckoboard = \<lparr>Port = 0, GithubOrg = ''geckoboard''\<rparr>"

section \<open>The string primitives meet their descriptions\<close>

lemma HasPrefix_iff: "HasPrefix s p \<longleftrightarrow> (\<exists>suf. s = p @ suf)"
  unfolding HasPrefix_def
  by (metis append_eq_conv_conj append_take_drop_id)

lemma Contains_iff: "Contains s sub \<longleftrightarrow> (\<exists>pre suf. s = pre @ sub @ suf)"
proof (induction s)
  case Nil
  then show ?case by auto
next
  case (Cons c cs)
  show ?case
  proof
    assume "Contains (c # cs) sub"
    then consider "HasPrefix (c # cs) sub" | "Contains cs sub" by auto
    then show "\<exists>pre suf. c # cs = pre @ sub @ suf"
    proof cases
      case 1
      then obtain suf where "c # cs = sub @ suf" by (auto simp: HasPrefix_iff)
      then have "c # cs = [] @ sub @ suf" by simp
      then show ?thesis by blast
    next
      case 2
      then obtain pre suf where "cs = pre @ sub @ suf" using Cons.IH by auto
      then have "c # cs = (c # pre) @ sub @ suf" by simp
      then show ?thesis by blast
    qed
  next
    assume "\<exists>pre suf. c # cs = pre @ sub @ suf"
    then obtain pre suf where e: "c # cs = pre @ sub @ suf" by auto
    show "Contains (c # cs) sub"
    proof (cases pre)
      case Nil
      with e have "HasPrefix (c # cs) sub" by (auto simp: HasPrefix_iff)
      then show ?thesis by simp
    next
      case (Cons a pre')
      with e have "cs = pre' @ sub @ suf" by simp
      then have "Contains cs sub" using Cons.IH by blast
      then show ?thesis by simp
    qed
  qed
qed

lemma has_cake_marker_code: "has_cake_marker b \<longleftrightarrow> Contains b '':cake:''"
  unfolding has_cake_marker_def by (rule Contains_iff [symmetric])

lemma ascii_lower_w: "ascii_lower c = CHR ''w'' \<longleftrightarrow> c = CHR ''w'' \<or> c = CHR ''W''"
  by (simp add: ascii_lower_def)

lemma ascii_lower_i: "ascii_lower c = CHR ''i'' \<longleftrightarrow> c = CHR ''i'' \<or> c = CHR ''I''"
  by (simp add: ascii_lower_def)

lemma ascii_lower_p: "ascii_lower c = CHR ''p'' \<longleftrightarrow> c = CHR ''p'' \<or> c = CHR ''P''"
  by (simp add: ascii_lower_def)

lemma WIPRegex_at_Cons3:
  "WIPRegex_at (a # b # c # r) \<longleftrightarrow> map ascii_lower [a, b, c] = ''wip''"
  by (simp add: ascii_lower_w ascii_lower_i ascii_lower_p)

lemma WIPRegex_at_iff:
  "WIPRegex_at s \<longleftrightarrow> (\<exists>mid suf. s = mid @ suf \<and> map ascii_lower mid = ''wip'')"
proof
  assume w: "WIPRegex_at s"
  then obtain a b c r where s: "s = a # b # c # r"
    by (cases s rule: WIPRegex_at.cases) simp_all
  from w have "map ascii_lower [a, b, c] = ''wip''"
    unfolding s by (rule iffD1 [OF WIPRegex_at_Cons3])
  moreover have "s = [a, b, c] @ r" unfolding s by simp
  ultimately show "\<exists>mid suf. s = mid @ suf \<and> map ascii_lower mid = ''wip''"
    by (intro exI conjI)
next
  assume "\<exists>mid suf. s = mid @ suf \<and> map ascii_lower mid = ''wip''"
  then obtain mid suf where s: "s = mid @ suf" and m: "map ascii_lower mid = ''wip''"
    by (elim exE conjE)
  from m have "length mid = 3" using length_map [of ascii_lower mid] by simp
  then obtain a b c where mid: "mid = [a, b, c]"
    by (auto simp: numeral_3_eq_3 length_Suc_conv)
  have "WIPRegex_at (a # b # c # suf)"
    using m unfolding mid by (rule iffD2 [OF WIPRegex_at_Cons3])
  then show "WIPRegex_at s" unfolding s mid by simp
qed

lemma title_matches_wipI:
  "t = pre @ mid @ suf \<Longrightarrow> map ascii_lower mid = ''wip'' \<Longrightarrow> title_matches_wip t"
  unfolding title_matches_wip_def by (intro exI conjI)

lemma WIPRegex_MatchString_iff: "WIPRegex_MatchString t \<longleftrightarrow> title_matches_wip t"
proof (induction t)
  case Nil
  show ?case by (simp add: title_matches_wip_def)
next
  case (Cons c cs)
  show ?case
  proof
    assume "WIPRegex_MatchString (c # cs)"
    then have "WIPRegex_at (c # cs) \<or> WIPRegex_MatchString cs" by simp
    then show "title_matches_wip (c # cs)"
    proof
      assume "WIPRegex_at (c # cs)"
      then have "\<exists>mid suf. c # cs = mid @ suf \<and> map ascii_lower mid = ''wip''"
        by (rule iffD1 [OF WIPRegex_at_iff])
      then obtain mid suf where ms: "c # cs = mid @ suf" "map ascii_lower mid = ''wip''"
        by (elim exE conjE)
      from ms(1) have "c # cs = [] @ mid @ suf" by simp
      then show ?thesis using ms(2) by (rule title_matches_wipI)
    next
      assume "WIPRegex_MatchString cs"
      then have "title_matches_wip cs" using Cons.IH by simp
      then obtain pre mid suf where ms: "cs = pre @ mid @ suf" "map ascii_lower mid = ''wip''"
        unfolding title_matches_wip_def by (elim exE conjE)
      from ms(1) have "c # cs = (c # pre) @ mid @ suf" by simp
      then show ?thesis using ms(2) by (rule title_matches_wipI)
    qed
  next
    assume "title_matches_wip (c # cs)"
    then obtain pre mid suf where e: "c # cs = pre @ mid @ suf"
      and m: "map ascii_lower mid = ''wip''"
      unfolding title_matches_wip_def by (elim exE conjE)
    show "WIPRegex_MatchString (c # cs)"
    proof (cases pre)
      case Nil
      with e have "c # cs = mid @ suf" by simp
      with m have "\<exists>mid suf. c # cs = mid @ suf \<and> map ascii_lower mid = ''wip''"
        by (intro exI conjI)
      then have "WIPRegex_at (c # cs)" by (rule iffD2 [OF WIPRegex_at_iff])
      then show ?thesis by simp
    next
      case (Cons a pre')
      with e have "cs = pre' @ mid @ suf" by simp
      then have "title_matches_wip cs" using m by (rule title_matches_wipI)
      then show ?thesis using Cons.IH by simp
    qed
  qed
qed

section \<open>Status classifier: precedence and purity\<close>

lemma IsCaked_loop_populated:
  "list_all (\<lambda>c. Comment_Body c \<noteq> None) cs \<Longrightarrow>
   IsCaked_loop cs = Return (\<exists>c \<in> set cs. \<exists>b. Comment_Body c = Some b \<and> has_cake_marker b)"
  by (induction cs) (auto simp: has_cake_marker_code)

lemma IsCaked_loop_bodies:
  "map Comment_Body cs = map Comment_Body ds \<Longrightarrow> IsCaked_loop cs = IsCaked_loop ds"
proof (induction cs arbitrary: ds)
  case Nil
  then show ?case by simp
next
  case (Cons c cs)
  then obtain d ds' where ds: "ds = d # ds'" by (cases ds) auto
  with Cons.prems have "Comment_Body c = Comment_Body d" "map Comment_Body cs = map Comment_Body ds'"
    by simp_all
  with Cons.IH [of ds'] show ?case unfolding ds by (simp split: option.splits)
qed

text \<open>
  C1. With the title and the comment bodies present, the status is decided by fixed
  precedence: a title that matches "wip" case-insensitively as a substring gives "wip"
  whatever the comments are (they are not even read); otherwise a comment body holding
  the substring ":cake:" gives "caked"; otherwise "awaiting-cake". The result depends on
  the title and the comment bodies only: two requests that agree on them are classified
  alike, whatever their issue bodies, labels, numbers or repositories are.
\<close>

theorem status_classifier_precedence:
  assumes "Title (issue p) = Some t"
  shows "(title_matches_wip t \<longrightarrow> CalculateAppropriateStatus p = Return ''wip'') \<and>
         (list_all (\<lambda>c. Comment_Body c \<noteq> None) (comments p) \<longrightarrow>
            CalculateAppropriateStatus p =
              Return (if title_matches_wip t then ''wip''
                      else if (\<exists>c \<in> set (comments p). \<exists>b. Comment_Body c = Some b \<and> has_cake_marker b)
                           then ''caked''
                      else ''awaiting-cake'')) \<and>
         (\<forall>q. Title (issue q) = Title (issue p) \<and>
              map Comment_Body (comments q) = map Comment_Body (comments p) \<longrightarrow>
              CalculateAppropriateStatus q = CalculateAppropriateStatus p)"
proof (intro conjI impI allI)
  assume "title_matches_wip t"
  with assms show "CalculateAppropriateStatus p = Return ''wip''"
    by (simp add: CalculateAppropriateStatus_def IsWIP_def WIPRegex_MatchString_iff WIPLabel_def)
next
  assume "list_all (\<lambda>c. Comment_Body c \<noteq> None) (comments p)"
  then have "IsCaked p =
      Return (\<exists>c \<in> set (comments p). \<exists>b. Comment_Body c = Some b \<and> has_cake_marker b)"
    unfolding IsCaked_def by (rule IsCaked_loop_populated)
  with assms show "CalculateAppropriateStatus p =
      Return (if title_matches_wip t then ''wip''
              else if (\<exists>c \<in> set (comments p). \<exists>b. Comment_Body c = Some b \<and> has_cake_marker b)
                   then ''caked''
              else ''awaiting-cake'')"
    by (auto simp add: CalculateAppropriateStatus_def IsWIP_def WIPRegex_MatchString_iff
        WIPLabel_def CakedLabel_def AwaitingCakeLabel_def split: bool.splits)
next
  fix q :: ReviewRequest
  assume "Title (issue q) = Title (issue p) \<and>
          map Comment_Body (comments q) = map Comment_Body (comments p)"
  then have eqs: "IsWIP q = IsWIP p" "IsCaked q = IsCaked p"
    using IsCaked_loop_bodies [of "comments q" "comments p"]
    by (simp_all add: IsWIP_def IsCaked_def)
  show "CalculateAppropriateStatus q = CalculateAppropriateStatus p"
    unfolding CalculateAppropriateStatus_def eqs by (rule refl)
qed

theorem status_classifier_precedence_witness:
  "CalculateAppropriateStatus review42 = Return ''caked'' \<and>
   CalculateAppropriateStatus review7 = Return ''wip'' \<and>
   CalculateAppropriateStatus (review42\<lparr>comments := commentsOf [''looks good'']\<rparr>)
     = Return ''awaiting-cake'' \<and>
   CalculateAppropriateStatus
     (review42\<lparr>issue := prIssue 1 ''Add feature'' '':cake:'' [''caked'']\<rparr>) = Return ''caked''"
proof -
  have nowip: "\<not> title_matches_wip ''Add feature''"
    unfolding WIPRegex_MatchString_iff [symmetric] by simp
  have wip: "title_matches_wip ''WIP: refactor''"
    unfolding WIPRegex_MatchString_iff [symmetric] by simp
  have a: "CalculateAppropriateStatus review42 = Return ''caked''"
    using status_classifier_precedence [of review42 "''Add feature''"] nowip
    by (simp add: review42_def prIssue_def commentsOf_def has_cake_marker_code HasPrefix_def)
  have b: "CalculateAppropriateStatus review7 = Return ''wip''"
    using status_classifier_precedence [of review7 "''WIP: refactor''"] wip
    by (simp add: review7_def prIssue_def)
  have c: "CalculateAppropriateStatus (review42\<lparr>comments := commentsOf [''looks good'']\<rparr>)
             = Return ''awaiting-cake''"
    using status_classifier_precedence
      [of "review42\<lparr>comments := commentsOf [''looks good'']\<rparr>" "''Add feature''"] nowip
    by (simp add: review42_def prIssue_def commentsOf_def has_cake_marker_code HasPrefix_def)
  have t: "Title (issue review42) = Some ''Add feature''"
    by (simp add: review42_def prIssue_def)
  let ?q = "review42\<lparr>issue := prIssue 1 ''Add feature'' '':cake:'' [''caked'']\<rparr>"
  have same: "Title (issue ?q) = Title (issue review42) \<and>
              map Comment_Body (comments ?q) = map Comment_Body (comments review42)"
    by (simp add: review42_def prIssue_def)
  have d: "CalculateAppropriateStatus ?q = CalculateAppropriateStatus review42"
    using status_classifier_precedence [OF t, THEN conjunct2, THEN conjunct2, THEN spec, of ?q]
      same by (rule mp)
  show ?thesis
    by (intro conjI) (rule a, rule b, rule c, simp only: d a)
qed

section \<open>Label reconciler: the computed label list and the write decision\<close>

lemma isStatusLabel_iff: "isStatusLabel n \<longleftrightarrow> n = WIPLabel \<or> n = CakedLabel \<or> n = AwaitingCakeLabel"
  by (simp add: isStatusLabel_def WIPLabel_def CakedLabel_def AwaitingCakeLabel_def)

lemma scanLabels_populated:
  assumes "list_all (\<lambda>l. Label_Name l \<noteq> None) ls" and "newLabels s = t # rest"
  shows "scanLabels ls s = Return
           \<lparr>oldLabels = oldLabels s @ labelNames ls,
            newLabels = newLabels s @ filter (\<lambda>n. \<not> isStatusLabel n) (labelNames ls),
            foundReviewLabel = (foundReviewLabel s \<or> (\<exists>n \<in> set (labelNames ls). isStatusLabel n)),
            incorrectReviewLabel =
              (incorrectReviewLabel s \<or> (\<exists>n \<in> set (labelNames ls). isStatusLabel n \<and> n \<noteq> t))\<rparr>"
  using assms
proof (induction ls arbitrary: s rest)
  case Nil
  then show ?case by (simp add: labelNames_def)
next
  case (Cons l ls)
  from Cons.prems obtain n where n: "Label_Name l = Some n" by auto
  have all: "list_all (\<lambda>l. Label_Name l \<noteq> None) ls" using Cons.prems by simp
  have names: "labelNames (l # ls) = n # labelNames ls" using n by (simp add: labelNames_def)
  show ?case
  proof (cases "isStatusLabel n")
    case True
    let ?s2 = "s\<lparr>oldLabels := oldLabels s @ [n], foundReviewLabel := True,
                  incorrectReviewLabel := (if n \<noteq> t then True else incorrectReviewLabel s)\<rparr>"
    have step: "scanLabels (l # ls) s = scanLabels ls ?s2"
      using n True Cons.prems(2) by (simp add: isStatusLabel_iff Let_def)
    have "newLabels ?s2 = t # rest" using Cons.prems(2) by simp
    from Cons.IH [OF all this] show ?thesis
      unfolding step names using True by auto
  next
    case False
    let ?s2 = "s\<lparr>oldLabels := oldLabels s @ [n], newLabels := newLabels s @ [n]\<rparr>"
    have step: "scanLabels (l # ls) s = scanLabels ls ?s2"
      using n False by (simp add: isStatusLabel_iff Let_def)
    have "newLabels ?s2 = t # (rest @ [n])" using Cons.prems(2) by simp
    from Cons.IH [OF all this] show ?thesis
      unfolding step names using False by auto
  qed
qed

lemma status_isStatusLabel:
  "CalculateAppropriateStatus p = Return t \<Longrightarrow> isStatusLabel t"
  by (auto simp: CalculateAppropriateStatus_def isStatusLabel_iff
      split: outcome.splits bool.splits)

lemma populated_status:
  assumes "populated p"
  shows "\<exists>t. CalculateAppropriateStatus p = Return t"
proof -
  from assms obtain ti where "Title (issue p) = Some ti" by (auto simp: populated_def)
  moreover from assms have "\<exists>b. IsCaked p = Return b"
    using IsCaked_loop_populated [of "comments p"] by (simp add: populated_def IsCaked_def)
  ultimately show ?thesis
    by (auto simp: CalculateAppropriateStatus_def IsWIP_def split: bool.splits)
qed

lemma populated_issueArgs:
  assumes "populated p"
  shows "\<exists>login name n. issueArgs (repo p) (issue p) = Return (login, name, n)"
  using assms
  by (auto simp: populated_def issueArgs_def ownerLogin_def deref_def split: option.splits)

lemma scan_initial:
  assumes "list_all (\<lambda>l. Label_Name l \<noteq> None) ls"
  shows "\<exists>s. scanLabels ls (initialScan t) = Return s \<and>
             newLabels s = t # filter (\<lambda>n. \<not> isStatusLabel n) (labelNames ls) \<and>
             labelsNeedUpdating s = needsWrite t (labelNames ls)"
proof -
  have "newLabels (initialScan t) = t # []" by (simp add: initialScan_def)
  from scanLabels_populated [OF assms this] show ?thesis
    by (auto simp: initialScan_def labelsNeedUpdating_def needsWrite_def)
qed

lemma update_characterisation:
  assumes pop: "populated review"
    and st: "CalculateAppropriateStatus review = Return t"
    and args: "issueArgs (repo review) (issue review) = Return (login, name, n)"
  shows "updateIssueReviewLabels cl review =
     (let names = labelNames (Labels (issue review));
          new = t # filter (\<lambda>l. \<not> isStatusLabel l) names
      in if needsWrite t names
         then ([ReplaceLabelsForIssue login name n new],
               Return (replaceLabelsForIssue cl login name n new))
         else ([], Return None))"
proof -
  from pop have "list_all (\<lambda>l. Label_Name l \<noteq> None) (Labels (issue review))"
    by (simp add: populated_def)
  from scan_initial [OF this, of t] obtain s where
    s: "scanLabels (Labels (issue review)) (initialScan t) = Return s"
    and new: "newLabels s = t # filter (\<lambda>n. \<not> isStatusLabel n) (labelNames (Labels (issue review)))"
    and need: "labelsNeedUpdating s = needsWrite t (labelNames (Labels (issue review)))"
    by blast
  show ?thesis
    by (simp add: updateIssueReviewLabels_def st s new need args Let_def)
qed



text \<open>
  C2. For a request whose fields are present, with current label names \<open>L\<close> and
  classified status \<open>t\<close>: the label list the reconciler computes is \<open>t\<close> followed by
  the labels of \<open>L\<close> that are not status labels, in their order; it holds exactly one
  status label, namely \<open>t\<close>; it has no duplicates when \<open>L\<close> has none; and every call
  the reconciler issues is a replace-all-labels call that submits this list.
\<close>

theorem reconciler_new_labels:
  assumes "populated review"
  shows "\<exists>t s. CalculateAppropriateStatus review = Return t \<and> isStatusLabel t \<and>
           scanLabels (Labels (issue review)) (initialScan t) = Return s \<and>
           newLabels s = t # filter (\<lambda>l. \<not> isStatusLabel l) (labelNames (Labels (issue review))) \<and>
           filter isStatusLabel (newLabels s) = [t] \<and>
           (distinct (labelNames (Labels (issue review))) \<longrightarrow> distinct (newLabels s)) \<and>
           (\<forall>c \<in> set (fst (updateIssueReviewLabels cl review)).
              \<exists>login name n. c = ReplaceLabelsForIssue login name n (newLabels s))"
proof -
  let ?names = "labelNames (Labels (issue review))"
  from populated_status [OF assms] obtain t where
    st: "CalculateAppropriateStatus review = Return t" by blast
  then have t: "isStatusLabel t" by (rule status_isStatusLabel)
  from populated_issueArgs [OF assms] obtain login name n where
    args: "issueArgs (repo review) (issue review) = Return (login, name, n)" by blast
  from assms have "list_all (\<lambda>l. Label_Name l \<noteq> None) (Labels (issue review))"
    by (simp add: populated_def)
  from scan_initial [OF this, of t] obtain s where
    s: "scanLabels (Labels (issue review)) (initialScan t) = Return s"
    and new: "newLabels s = t # filter (\<lambda>l. \<not> isStatusLabel l) ?names"
    by blast
  have one: "filter isStatusLabel (newLabels s) = [t]"
    unfolding new using t by (simp add: filter_empty_conv)
  have dist: "distinct ?names \<longrightarrow> distinct (newLabels s)"
    unfolding new using t by auto
  have calls: "\<forall>c \<in> set (fst (updateIssueReviewLabels cl review)).
                 \<exists>login name n. c = ReplaceLabelsForIssue login name n (newLabels s)"
    unfolding update_characterisation [OF assms st args] new by (simp add: Let_def)
  from st t s new one dist calls show ?thesis by blast
qed

theorem reconciler_new_labels_witness:
  "populated reviewSwap \<and>
   (\<exists>s. scanLabels (Labels (issue reviewSwap)) (initialScan ''caked'') = Return s \<and>
        newLabels s = [''caked'', ''team:x'']) \<and>
   fst (updateIssueReviewLabels quietClient reviewSwap) =
     [ReplaceLabelsForIssue ''geckoboard'' ''cake-bot'' 42 [''caked'', ''team:x'']]"
proof -
  have p: "populated reviewSwap"
    by (simp add: populated_def reviewSwap_def prIssue_def repoCakeBot_def commentsOf_def)
  have st: "CalculateAppropriateStatus reviewSwap = Return ''caked''"
    by (simp add: CalculateAppropriateStatus_def IsWIP_def IsCaked_def reviewSwap_def
        prIssue_def commentsOf_def HasPrefix_def CakedLabel_def)
  have names: "filter (\<lambda>l. \<not> isStatusLabel l) (labelNames (Labels (issue reviewSwap))) = [''team:x'']"
    by (simp add: labelNames_def reviewSwap_def prIssue_def isStatusLabel_def)
  have upd: "fst (updateIssueReviewLabels quietClient reviewSwap) =
     [ReplaceLabelsForIssue ''geckoboard'' ''cake-bot'' 42 [''caked'', ''team:x'']]"
    by (simp add: updateIssueReviewLabels_def CalculateAppropriateStatus_def IsWIP_def IsCaked_def
        reviewSwap_def prIssue_def commentsOf_def HasPrefix_def CakedLabel_def initialScan_def
        repoCakeBot_def labelsNeedUpdating_def issueArgs_def ownerLogin_def deref_def
        WIPLabel_def AwaitingCakeLabel_def Let_def)
  from reconciler_new_labels [OF p, of quietClient] obtain t s where
    t: "CalculateAppropriateStatus reviewSwap = Return t"
    and scan: "scanLabels (Labels (issue reviewSwap)) (initialScan t) = Return s"
    and new: "newLabels s = t # filter (\<lambda>l. \<not> isStatusLabel l) (labelNames (Labels (issue reviewSwap)))"
    by blast
  from t have teq: "t = ''caked''" unfolding st by simp
  have ex: "\<exists>s. scanLabels (Labels (issue reviewSwap)) (initialScan ''caked'') = Return s \<and>
        newLabels s = [''caked'', ''team:x'']"
  proof (intro exI conjI)
    show "scanLabels (Labels (issue reviewSwap)) (initialScan ''caked'') = Return s"
      using scan unfolding teq .
    show "newLabels s = [''caked'', ''team:x'']"
      using new unfolding teq names .
  qed
  from p ex upd show ?thesis by (intro conjI)
qed

text \<open>
  C3. For a request whose fields are present, the reconciler issues a replace-all-labels
  call if and only if no status label is among the current labels or a present status
  label differs from the classified target. When it writes, it issues exactly that one
  call and returns the call's error; when it does not, it issues no call at all and
  returns nil. In particular no write is issued when the status labels present are all
  equal to the target, whatever the other labels are.
\<close>

theorem reconciler_write_iff:
  assumes "populated review"
    and "CalculateAppropriateStatus review = Return t"
    and "issueArgs (repo review) (issue review) = Return (login, name, n)"
  shows "updateIssueReviewLabels cl review =
     (if needsWrite t (labelNames (Labels (issue review)))
      then ([ReplaceLabelsForIssue login name n
               (t # filter (\<lambda>l. \<not> isStatusLabel l) (labelNames (Labels (issue review))))],
            Return (replaceLabelsForIssue cl login name n
               (t # filter (\<lambda>l. \<not> isStatusLabel l) (labelNames (Labels (issue review))))))
      else ([], Return None)) \<and>
    (fst (updateIssueReviewLabels cl review) \<noteq> [] \<longleftrightarrow>
       (\<forall>l \<in> set (labelNames (Labels (issue review))). \<not> isStatusLabel l) \<or>
       (\<exists>l \<in> set (labelNames (Labels (issue review))). isStatusLabel l \<and> l \<noteq> t)) \<and>
    ((\<exists>l \<in> set (labelNames (Labels (issue review))). isStatusLabel l) \<and>
     (\<forall>l \<in> set (labelNames (Labels (issue review))). isStatusLabel l \<longrightarrow> l = t) \<longrightarrow>
       updateIssueReviewLabels cl review = ([], Return None)) \<and>
    length (fst (updateIssueReviewLabels cl review)) \<le> 1"
proof -
  let ?names = "labelNames (Labels (issue review))"
  let ?new = "t # filter (\<lambda>l. \<not> isStatusLabel l) ?names"
  have run: "updateIssueReviewLabels cl review =
     (if needsWrite t ?names
      then ([ReplaceLabelsForIssue login name n ?new],
            Return (replaceLabelsForIssue cl login name n ?new))
      else ([], Return None))"
    using update_characterisation [OF assms, of cl] by (simp add: Let_def)
  have wrote: "fst (updateIssueReviewLabels cl review) \<noteq> [] \<longleftrightarrow>
       (\<forall>l \<in> set ?names. \<not> isStatusLabel l) \<or> (\<exists>l \<in> set ?names. isStatusLabel l \<and> l \<noteq> t)"
    unfolding run by (simp add: needsWrite_def)
  have quiet: "(\<exists>l \<in> set ?names. isStatusLabel l) \<and> (\<forall>l \<in> set ?names. isStatusLabel l \<longrightarrow> l = t) \<longrightarrow>
       updateIssueReviewLabels cl review = ([], Return None)"
  proof
    assume "(\<exists>l \<in> set ?names. isStatusLabel l) \<and> (\<forall>l \<in> set ?names. isStatusLabel l \<longrightarrow> l = t)"
    then have "\<not> needsWrite t ?names" unfolding needsWrite_def by blast
    then show "updateIssueReviewLabels cl review = ([], Return None)" unfolding run by simp
  qed
  have once: "length (fst (updateIssueReviewLabels cl review)) \<le> 1"
    unfolding run by simp
  from run wrote quiet once show ?thesis by (intro conjI)
qed

theorem reconciler_write_iff_witness:
  "updateIssueReviewLabels quietClient review42 =
     ([ReplaceLabelsForIssue ''geckoboard'' ''cake-bot'' 42 [''caked'']], Return None) \<and>
   updateIssueReviewLabels quietClient reviewSwap =
     ([ReplaceLabelsForIssue ''geckoboard'' ''cake-bot'' 42 [''caked'', ''team:x'']], Return None) \<and>
   updateIssueReviewLabels quietClient reviewSettled = ([], Return None)"
proof -
  have p: "populated review42" "populated reviewSwap" "populated reviewSettled"
    by (simp_all add: populated_def review42_def reviewSwap_def reviewSettled_def prIssue_def
        repoCakeBot_def commentsOf_def)
  have st: "CalculateAppropriateStatus review42 = Return ''caked''"
    "CalculateAppropriateStatus reviewSwap = Return ''caked''"
    "CalculateAppropriateStatus reviewSettled = Return ''caked''"
    by (simp_all add: CalculateAppropriateStatus_def IsWIP_def IsCaked_def review42_def
        reviewSwap_def reviewSettled_def prIssue_def commentsOf_def HasPrefix_def CakedLabel_def)
  have args: "issueArgs (repo review42) (issue review42) = Return (''geckoboard'', ''cake-bot'', 42)"
    "issueArgs (repo reviewSwap) (issue reviewSwap) = Return (''geckoboard'', ''cake-bot'', 42)"
    "issueArgs (repo reviewSettled) (issue reviewSettled) = Return (''geckoboard'', ''cake-bot'', 42)"
    by (simp_all add: issueArgs_def ownerLogin_def deref_def review42_def reviewSwap_def
        reviewSettled_def prIssue_def repoCakeBot_def)
  have names: "labelNames (Labels (issue review42)) = []"
    "labelNames (Labels (issue reviewSwap)) = [''wip'', ''team:x'']"
    "labelNames (Labels (issue reviewSettled)) = [''team:x'', ''caked'']"
    by (simp_all add: labelNames_def review42_def reviewSwap_def reviewSettled_def prIssue_def)
  have a: "updateIssueReviewLabels quietClient review42 =
     ([ReplaceLabelsForIssue ''geckoboard'' ''cake-bot'' 42 [''caked'']], Return None)"
    unfolding reconciler_write_iff [OF p(1) st(1) args(1), THEN conjunct1] names
    by (simp add: needsWrite_def isStatusLabel_def quietClient_def)
  have b: "updateIssueReviewLabels quietClient reviewSwap =
     ([ReplaceLabelsForIssue ''geckoboard'' ''cake-bot'' 42 [''caked'', ''team:x'']], Return None)"
    unfolding reconciler_write_iff [OF p(2) st(2) args(2), THEN conjunct1] names
    by (simp add: needsWrite_def isStatusLabel_def quietClient_def)
  have c: "updateIssueReviewLabels quietClient reviewSettled = ([], Return None)"
    unfolding reconciler_write_iff [OF p(3) st(3) args(3), THEN conjunct1] names
    by (simp add: needsWrite_def isStatusLabel_def quietClient_def)
  from a b c show ?thesis by (intro conjI)
qed




section \<open>Pagination walker\<close>















lemma comment_walk:
  assumes "servesCommentPages cl login name n page ps fin"
  shows "loadComments_loop cl login name n page allComments tr =
           Some (tr @ map (ListComments login name n) (commentPageNumbers page ps fin),
                 (case fin of
                    None \<Rightarrow> Inr (allComments @ concat (map fst ps))
                  | Some err \<Rightarrow> Inl err))"
  using assms
proof (induction ps arbitrary: page allComments tr)
  case Nil
  then obtain err where fin: "fin = Some err" and l: "listComments cl login name n page = Inl err"
    by (cases fin) auto
  show ?case by (subst loadComments_loop.simps) (simp add: fin l)
next
  case (Cons p ps)
  obtain cs nextPage where p: "p = (cs, nextPage)" by (cases p)
  from Cons.prems have l: "listComments cl login name n page = Inr (cs, nextPage)"
    unfolding p by simp
  show ?case
  proof (cases "ps = [] \<and> fin = None")
    case True
    with Cons.prems have "nextPage = 0" unfolding p by simp
    with True l show ?thesis unfolding p
      by (subst loadComments_loop.simps) simp
  next
    case False
    with Cons.prems have nz: "nextPage \<noteq> 0"
      and rest: "servesCommentPages cl login name n nextPage ps fin" unfolding p by simp_all
    have "loadComments_loop cl login name n page allComments tr =
          loadComments_loop cl login name n nextPage (allComments @ cs)
            (tr @ [ListComments login name n page])"
      by (subst loadComments_loop.simps) (simp add: l nz)
    also note Cons.IH [OF rest, of "allComments @ cs" "tr @ [ListComments login name n page]"]
    finally show ?thesis unfolding p by (simp split: option.splits)
  qed
qed




section \<open>Webhook handler: status codes and nil dereferences\<close>





lemmas webhook_eval =
  githubWebhook_def delivery_def commentPayload_def openedPayload_def logContext_def inspect_def
  ReviewRequestFromIssue_def loadComments_def loadComments_loop.simps issueArgs_def ownerLogin_def
  deref_def issue42_def prIssue_def repoCakeBot_def commentsOf_def
  updateIssueReviewLabels_def CalculateAppropriateStatus_def IsWIP_def IsCaked_def HasPrefix_def
  initialScan_def labelsNeedUpdating_def WIPLabel_def CakedLabel_def AwaitingCakeLabel_def Let_def



text \<open>
  C10. For the two handled event types and a payload that decoded without error, the
  handler panics, issuing no call and writing no status, when the repository object
  lacks its owner or the owner's login, when the issue object lacks its number, and when
  an issue with pull-request links and a non-zero number arrives without a repository
  object.
\<close>

theorem webhook_nil_dereference:
  assumes "event req = ''pull_request'' \<or> event req = ''issue_comment''"
    and "decoded req = Inr payload"
  shows "(\<forall>r. Payload_Repository payload = Some r \<and>
               (Owner r = None \<or> (\<exists>u. Owner r = Some u \<and> Login u = None)) \<longrightarrow>
             githubWebhook cl req = Some ([], Panic)) \<and>
         (\<forall>i. Payload_Issue payload = Some i \<and> Number i = None \<longrightarrow>
             githubWebhook cl req = Some ([], Panic)) \<and>
         (\<forall>i n. Payload_Repository payload = None \<and> Payload_Issue payload = Some i \<and>
               Number i = Some n \<and> n \<noteq> 0 \<and> HTMLURL i \<noteq> None \<and> PullRequestLinks i \<noteq> None \<longrightarrow>
             githubWebhook cl req = Some ([], Panic))"
proof (intro conjI allI impI)
  fix r
  assume "Payload_Repository payload = Some r \<and>
          (Owner r = None \<or> (\<exists>u. Owner r = Some u \<and> Login u = None))"
  then have "logContext payload = Panic"
    by (auto simp: logContext_def ownerLogin_def deref_def split: option.splits outcome.splits)
  with assms show "githubWebhook cl req = Some ([], Panic)"
    by (auto simp: githubWebhook_def)
next
  fix i
  assume "Payload_Issue payload = Some i \<and> Number i = None"
  then have "logContext payload = Panic"
    by (auto simp: logContext_def deref_def split: option.splits outcome.splits)
  with assms show "githubWebhook cl req = Some ([], Panic)"
    by (auto simp: githubWebhook_def)
next
  fix i n
  assume a: "Payload_Repository payload = None \<and> Payload_Issue payload = Some i \<and>
          Number i = Some n \<and> n \<noteq> 0 \<and> HTMLURL i \<noteq> None \<and> PullRequestLinks i \<noteq> None"
  then have "logContext payload = Return ()"
    by (auto simp: logContext_def deref_def split: option.splits outcome.splits)
  with assms a show "githubWebhook cl req = Some ([], Panic)"
    by (auto simp: githubWebhook_def inspect_def)
qed

theorem webhook_nil_dereference_witness:
  "githubWebhook quietClient
     (delivery ''issue_comment''
        (commentPayload (Some issue42) (Some \<lparr>Owner = Some \<lparr>Login = None\<rparr>, Repo_Name = Some ''cake-bot''\<rparr>)))
     = Some ([], Panic) \<and>
   githubWebhook quietClient
     (delivery ''issue_comment'' (commentPayload (Some (issue42\<lparr>Number := None\<rparr>)) (Some repoCakeBot)))
     = Some ([], Panic) \<and>
   githubWebhook quietClient (delivery ''pull_request'' (commentPayload (Some issue42) None))
     = Some ([], Panic)"
proof -
  let ?r = "\<lparr>Owner = Some \<lparr>Login = None\<rparr>, Repo_Name = Some ''cake-bot''\<rparr>"
  let ?p1 = "commentPayload (Some issue42) (Some ?r)"
  let ?p2 = "commentPayload (Some (issue42\<lparr>Number := None\<rparr>)) (Some repoCakeBot)"
  let ?p3 = "commentPayload (Some issue42) None"
  have ev: "event (delivery ''issue_comment'' p) = ''pull_request'' \<or>
            event (delivery ''issue_comment'' p) = ''issue_comment''"
    "event (delivery ''pull_request'' p) = ''pull_request'' \<or>
     event (delivery ''pull_request'' p) = ''issue_comment''" for p
    by (simp_all add: delivery_def)
  have dec: "decoded (delivery e p) = Inr p" for e p by (simp add: delivery_def)
  have a: "githubWebhook quietClient (delivery ''issue_comment'' ?p1) = Some ([], Panic)"
    using webhook_nil_dereference [OF ev(1) dec, of ?p1 quietClient, THEN conjunct1, THEN spec, of ?r]
    by (simp add: commentPayload_def)
  have b: "githubWebhook quietClient (delivery ''issue_comment'' ?p2) = Some ([], Panic)"
    using webhook_nil_dereference [OF ev(1) dec, of ?p2 quietClient, THEN conjunct2, THEN conjunct1,
        THEN spec, of "issue42\<lparr>Number := None\<rparr>"]
    by (simp add: commentPayload_def)
  have c: "githubWebhook quietClient (delivery ''pull_request'' ?p3) = Some ([], Panic)"
    using webhook_nil_dereference [OF ev(2) dec, of ?p3 quietClient, THEN conjunct2, THEN conjunct2,
        THEN spec, THEN spec, of issue42 42]
    by (simp add: commentPayload_def issue42_def prIssue_def)
  from a b c show ?thesis by (intro conjI)
qed

section \<open>A failed comment fetch\<close>

text \<open>
  When every page of the comment listing can be fetched, \<open>loadComments\<close> walks them to
  the end and stores all comments. When a page cannot be fetched, it returns the error
  and stores nothing, and \<open>ReviewRequestFromIssue\<close> returns the request without comments.
\<close>

lemma loadComments_complete:
  assumes "issueArgs (repo review) (issue review) = Return (login, name, n)"
    and "servesCommentPages cl login name n 0 ps None"
  shows "loadComments cl review =
           Some (map (ListComments login name n) (commentPageNumbers 0 ps None),
                 Return (None, review\<lparr>comments := concat (map fst ps)\<rparr>))"
  using comment_walk [OF assms(2), of "[]" "[]"] assms(1)
  by (simp add: loadComments_def)

lemma loadComments_error_dropped:
  assumes "loadComments cl \<lparr>issue = i, repo = r, comments = []\<rparr> = Some (tr, Return (Some err, review))"
  shows "ReviewRequestFromIssue cl r i = Some (tr, Return \<lparr>issue = i, repo = r, comments = []\<rparr>)"
proof -
  from assms have "review = \<lparr>issue = i, repo = r, comments = []\<rparr>"
    by (auto simp: loadComments_def split: outcome.splits option.splits prod.splits sum.splits)
  with assms show ?thesis by (simp add: ReviewRequestFromIssue_def)
qed

text \<open>
  C6, evaluated on the code. The comment listing of issue 42 fails on its second page.
  \<open>loadComments\<close> returns the error, \<open>ReviewRequestFromIssue\<close> drops it and returns the
  request with no comments at all; the request is classified all the same: the cake
  marker of the first page is lost, the status comes out as "awaiting-cake", and the
  handler replaces the issue's "caked" label and answers 200.
\<close>

theorem failed_comment_fetch_is_classified:
  "ReviewRequestFromIssue flakyClient repoCakeBot issue42 =
     Some ([ListComments ''geckoboard'' ''cake-bot'' 42 0, ListComments ''geckoboard'' ''cake-bot'' 42 2],
           Return \<lparr>issue = issue42, repo = repoCakeBot, comments = []\<rparr>) \<and>
   CalculateAppropriateStatus \<lparr>issue = issue42, repo = repoCakeBot, comments = []\<rparr> =
     Return ''awaiting-cake'' \<and>
   githubWebhook flakyClient
       (delivery ''issue_comment'' (commentPayload (Some issue42) (Some repoCakeBot))) =
     Some ([ListComments ''geckoboard'' ''cake-bot'' 42 0, ListComments ''geckoboard'' ''cake-bot'' 42 2,
            ReplaceLabelsForIssue ''geckoboard'' ''cake-bot'' 42 [''awaiting-cake'']],
           Return 200)"
proof (intro conjI)
  show "ReviewRequestFromIssue flakyClient repoCakeBot issue42 =
     Some ([ListComments ''geckoboard'' ''cake-bot'' 42 0, ListComments ''geckoboard'' ''cake-bot'' 42 2],
           Return \<lparr>issue = issue42, repo = repoCakeBot, comments = []\<rparr>)"
    by (simp add: ReviewRequestFromIssue_def loadComments_def loadComments_loop.simps issueArgs_def
        ownerLogin_def deref_def issue42_def prIssue_def repoCakeBot_def flakyClient_def
        quietClient_def)
  show "CalculateAppropriateStatus \<lparr>issue = issue42, repo = repoCakeBot, comments = []\<rparr> =
     Return ''awaiting-cake''"
    by (simp add: CalculateAppropriateStatus_def IsWIP_def IsCaked_def issue42_def prIssue_def
        AwaitingCakeLabel_def)
  show "githubWebhook flakyClient
       (delivery ''issue_comment'' (commentPayload (Some issue42) (Some repoCakeBot))) =
     Some ([ListComments ''geckoboard'' ''cake-bot'' 42 0, ListComments ''geckoboard'' ''cake-bot'' 42 2,
            ReplaceLabelsForIssue ''geckoboard'' ''cake-bot'' 42 [''awaiting-cake'']],
           Return 200)"
    by (simp add: webhook_eval flakyClient_def quietClient_def)
qed

section \<open>Label provisioner: convergence\<close>






















lemmas provisioner_eval =
  setupReviewFlagsInRepo_def ownerLogin_def deref_def repoCakeBot_def labelsClient_def
  quietClient_def deprecatedLabels_def LabelColors_def WIPLabel_def CakedLabel_def
  AwaitingCakeLabel_def mkLabel_def ascii_lower_def



section \<open>Bulk synchronization: the provisioning goroutine\<close>

text \<open>
  C4, evaluated on the code. The goroutine of \<open>runBulkSync\<close> that is to provision the
  repositories returns before it calls \<open>ensureOrgReposHaveLabels\<close>: no bulk-sync run
  issues a provisioning call or starts a provisioning task. On an organization with one
  repository that lacks the three labels, \<open>runBulkSync\<close> only fetches the issues, while
  \<open>ensureOrgReposHaveLabels\<close>, had it been called, would have listed the repositories and
  created the labels.
\<close>

theorem bulk_sync_never_provisions:
  "labelsGoroutine cl orderOf c = Some ([], [], None) \<and>
   (\<forall>r. runBulkSync cl orderOf c = Some r \<longrightarrow> provisioning r = ([], []))"
proof (intro conjI allI impI)
  show g: "labelsGoroutine cl orderOf c = Some ([], [], None)"
    by (simp add: labelsGoroutine_def)
  fix r
  assume "runBulkSync cl orderOf c = Some r"
  then show "provisioning r = ([], [])"
    unfolding runBulkSync_def g
    by (auto split: option.splits prod.splits outcome.splits sum.splits)
qed

theorem bulk_sync_never_provisions_witness:
  "runBulkSync orgClient (\<lambda>_. LabelColors) geckoboard =
     Some \<lparr>provisioning = ([], []), issue_walk = [GhGet (orgIssuesURL ''geckoboard'')],
           reconciliations = [], crashed = False\<rparr> \<and>
   ensureOrgReposHaveLabels orgClient (\<lambda>_. LabelColors) ''geckoboard'' =
     Some ([ListByOrg ''geckoboard'' 0],
           [([ListLabels ''geckoboard'' ''cake-bot'',
              CreateLabel ''geckoboard'' ''cake-bot'' ''wip'' ''207de5'',
              CreateLabel ''geckoboard'' ''cake-bot'' ''caked'' ''009800'',
              CreateLabel ''geckoboard'' ''cake-bot'' ''awaiting-cake'' ''eb6420''], Return ())],
           None)"
proof -
  have "\<exists>p. runBulkSync orgClient (\<lambda>_. LabelColors) geckoboard =
     Some \<lparr>provisioning = p, issue_walk = [GhGet (orgIssuesURL ''geckoboard'')],
           reconciliations = [], crashed = False\<rparr>"
    by (simp add: runBulkSync_def labelsGoroutine_def ReviewRequestsInOrg_def
        ReviewRequestsInOrg_loop.simps geckoboard_def orgClient_def quietClient_def
        ghNextPageURL_def)
  then obtain p where run: "runBulkSync orgClient (\<lambda>_. LabelColors) geckoboard =
     Some \<lparr>provisioning = p, issue_walk = [GhGet (orgIssuesURL ''geckoboard'')],
           reconciliations = [], crashed = False\<rparr>" by blast
  from bulk_sync_never_provisions [of orgClient "\<lambda>_. LabelColors" geckoboard] run
  have "p = ([], [])" by simp
  note a = run [unfolded this]
  have b: "ensureOrgReposHaveLabels orgClient (\<lambda>_. LabelColors) ''geckoboard'' =
     Some ([ListByOrg ''geckoboard'' 0],
           [([ListLabels ''geckoboard'' ''cake-bot'',
              CreateLabel ''geckoboard'' ''cake-bot'' ''wip'' ''207de5'',
              CreateLabel ''geckoboard'' ''cake-bot'' ''caked'' ''009800'',
              CreateLabel ''geckoboard'' ''cake-bot'' ''awaiting-cake'' ''eb6420''], Return ())],
           None)"
    by (simp add: ensureOrgReposHaveLabels_def ensureOrgRepos_loop.simps repoTask_def
        orgClient_def provisioner_eval)
  from a b show ?thesis by (intro conjI)
qed

end
